theory Spec2Isabelle
  imports Main "HOL-Library.Word" "HOL-Library.Sublist"
begin

section \<open>JavaScript values used by the relayer's utilities\<close>

text \<open>
  The utilities are TypeScript. A throw is a value \<open>Inl (Error msg)\<close> of the result type
  \<open>error + 'a\<close>. Strings are Isabelle strings: lists of 8-bit code units, which covers the
  ASCII text of event attributes, chain identifiers and amounts. The diagnostic
  \<^verbatim>\<open>console.log\<close> lines of the source write to the console only; they are not part of
  any returned value and are not modelled.
\<close>

datatype error = Error string

definition bind_result :: "error + 'a \<Rightarrow> ('a \<Rightarrow> error + 'b) \<Rightarrow> error + 'b" where
  "bind_result r f = (case r of Inl e \<Rightarrow> Inl e | Inr x \<Rightarrow> f x)"

subsection \<open>Numbers\<close>

text \<open>
  A JavaScript \<^verbatim>\<open>number\<close> is an IEEE double. The numbers of these functions are counts,
  seconds, parsed integers and their products, so the model holds the integer-valued
  doubles and \<open>NaN\<close>. An integer of magnitude below \<open>2 ^ 53\<close> is a double as it is; a larger
  one is rounded to 53 significant bits, ties to even (\<open>round_double\<close>). Infinities are
  not modelled.
\<close>

datatype number = NaN | Num int

function bit_length :: "int \<Rightarrow> nat" where
  "bit_length n = (if n \<le> 0 then 0 else Suc (bit_length (n div 2)))"
  by pat_completeness auto
termination
  by (relation "measure nat") auto

declare bit_length.simps [simp del]

definition round_double :: "int \<Rightarrow> int" where
  "round_double v =
     (if \<bar>v\<bar> < 2 ^ 53 then v
      else let e = bit_length \<bar>v\<bar> - 53;
               q = \<bar>v\<bar> div 2 ^ e;
               r = \<bar>v\<bar> mod 2 ^ e;
               m = (if 2 * r < 2 ^ e then q
                    else if 2 ^ e < 2 * r then q + 1
                    else if even q then q else q + 1)
           in sgn v * (m * 2 ^ e))"

definition num_mul :: "number \<Rightarrow> number \<Rightarrow> number" where
  "num_mul x y =
     (case x of NaN \<Rightarrow> NaN
      | Num a \<Rightarrow> (case y of NaN \<Rightarrow> NaN | Num b \<Rightarrow> Num (round_double (a * b))))"

definition num_greater :: "number \<Rightarrow> number \<Rightarrow> bool" where
  "num_greater x y =
     (case x of NaN \<Rightarrow> False
      | Num a \<Rightarrow> (case y of NaN \<Rightarrow> False | Num b \<Rightarrow> b < a))"

definition num_strict_equal :: "number \<Rightarrow> number \<Rightarrow> bool" where
  "num_strict_equal x y =
     (case x of NaN \<Rightarrow> False
      | Num a \<Rightarrow> (case y of NaN \<Rightarrow> False | Num b \<Rightarrow> a = b))"

subsection \<open>Decimal text\<close>

definition digit_char :: "int \<Rightarrow> char" where
  "digit_char d = ''0123456789'' ! nat d"

function digits_of :: "int \<Rightarrow> string" where
  "digits_of n = (if n < 10 then [digit_char n] else digits_of (n div 10) @ [digit_char (n mod 10)])"
  by pat_completeness auto
termination
  by (relation "measure nat") auto

declare digits_of.simps [simp del]

definition int_toString :: "int \<Rightarrow> string" where
  "int_toString v = (if v < 0 then CHR ''-'' # digits_of (- v) else digits_of v)"

text \<open>
  \<^verbatim>\<open>Number.prototype.toString()\<close> on an integer-valued number: the decimal digits. (From
  \<open>10 ^ 21\<close> on JavaScript prints an exponent; the model prints digits throughout.)
\<close>

definition Number_toString :: "number \<Rightarrow> string" where
  "Number_toString x = (case x of NaN \<Rightarrow> ''NaN'' | Num v \<Rightarrow> int_toString v)"

definition isDigit :: "char \<Rightarrow> bool" where
  "isDigit c = (48 \<le> (of_char c :: int) \<and> (of_char c :: int) \<le> 57)"

definition digitVal :: "char \<Rightarrow> int" where
  "digitVal c = of_char c - 48"

definition decimal :: "string \<Rightarrow> int" where
  "decimal ds = foldl (\<lambda>a c. 10 * a + digitVal c) 0 ds"

definition isWhiteSpace :: "char \<Rightarrow> bool" where
  "isWhiteSpace c = ((of_char c :: int) \<in> {9, 10, 11, 12, 13, 32, 160})"

text \<open>
  \<^verbatim>\<open>Number.parseInt(s, 10)\<close>: leading white space is skipped, one sign is read, then the
  longest run of decimal digits; without a digit the result is \<open>NaN\<close>.
\<close>

definition parseInt10 :: "string \<Rightarrow> number" where
  "parseInt10 s =
     (let t = dropWhile isWhiteSpace s;
          sign = (case t of c # _ \<Rightarrow> if c = CHR ''-'' then - 1 else 1 | [] \<Rightarrow> (1 :: int));
          u = (case t of c # r \<Rightarrow> if c = CHR ''-'' \<or> c = CHR ''+'' then r else t | [] \<Rightarrow> []);
          ds = takeWhile isDigit u
      in if ds = [] then NaN else Num (round_double (sign * decimal ds)))"

text \<open>
  The relational operator \<^verbatim>\<open>>\<close> on two strings compares them code unit by code unit; a
  proper prefix is the smaller string.
\<close>

fun string_greater :: "string \<Rightarrow> string \<Rightarrow> bool" where
  "string_greater [] ys = False"
| "string_greater (x # xs) [] = True"
| "string_greater (x # xs) (y # ys) =
     (if (of_char y :: int) < of_char x then True
      else if (of_char x :: int) < of_char y then False
      else string_greater xs ys)"

text \<open>\<^verbatim>\<open>String.prototype.split(sep)\<close> with a separator of one character.\<close>

fun split :: "char \<Rightarrow> string \<Rightarrow> string list" where
  "split sep [] = [[]]"
| "split sep (c # cs) =
     (if c = sep then [] # split sep cs
      else (case split sep cs of p # ps \<Rightarrow> (c # p) # ps | [] \<Rightarrow> [[c]]))"

text \<open>\<^verbatim>\<open>toUtf8\<close> of @cosmjs/encoding: the UTF-8 bytes of a string.\<close>

definition toUtf8 :: "string \<Rightarrow> 8 word list" where
  "toUtf8 s =
     concat (map (\<lambda>c. let n = (of_char c :: nat)
                      in if n < 128 then [of_nat n]
                         else [of_nat (192 + n div 64), of_nat (128 + n mod 64)]) s)"

subsection \<open>64-bit integers of long.js\<close>

text \<open>
  A \<^verbatim>\<open>Long\<close> holds 64 bits (its \<^verbatim>\<open>low\<close> and \<^verbatim>\<open>high\<close> halves) and the flag
  \<^verbatim>\<open>unsigned\<close> that says how to read them. Arithmetic wraps around.
\<close>

record Long =
  bits :: "64 word"
  unsigned :: bool

definition Long_value :: "Long \<Rightarrow> int" where
  "Long_value l = (if unsigned l then uint (bits l) else sint (bits l))"

definition Long_ZERO :: Long where
  "Long_ZERO = \<lparr>bits = 0, unsigned = False\<rparr>"

text \<open>\<^verbatim>\<open>new Long(low)\<close>: the low half is \<^verbatim>\<open>low | 0\<close>, the high half 0, signed.\<close>

definition Long_new :: "number \<Rightarrow> Long" where
  "Long_new low = \<lparr>bits = (case low of NaN \<Rightarrow> 0 | Num v \<Rightarrow> of_int (v mod 2 ^ 32)), unsigned = False\<rparr>"

definition Long_fromInt :: "int \<Rightarrow> Long" where
  "Long_fromInt v = \<lparr>bits = of_int v, unsigned = False\<rparr>"

text \<open>\<^verbatim>\<open>Long.fromNumber(value)\<close>, signed: \<open>NaN\<close> is zero and a value out of range is clamped.\<close>

definition Long_fromNumber :: "number \<Rightarrow> Long" where
  "Long_fromNumber x =
     (case x of NaN \<Rightarrow> Long_ZERO
      | Num v \<Rightarrow>
          if v \<le> - (2 ^ 63) then \<lparr>bits = of_int (- (2 ^ 63)), unsigned = False\<rparr>
          else if 2 ^ 63 \<le> v + 1 then \<lparr>bits = of_int (2 ^ 63 - 1), unsigned = False\<rparr>
          else \<lparr>bits = of_int v, unsigned = False\<rparr>)"

definition Long_neg :: "Long \<Rightarrow> Long" where
  "Long_neg l = l\<lparr>bits := - bits l\<rparr>"

definition Long_add :: "Long \<Rightarrow> Long \<Rightarrow> Long" where
  "Long_add l r = l\<lparr>bits := bits l + bits r\<rparr>"

definition Long_mul :: "Long \<Rightarrow> Long \<Rightarrow> Long" where
  "Long_mul l r = l\<lparr>bits := bits l * bits r\<rparr>"

text \<open>\<^verbatim>\<open>subtract(n)\<close> with a number: the number becomes a \<^verbatim>\<open>Long\<close> first.\<close>

definition Long_subtract :: "Long \<Rightarrow> number \<Rightarrow> Long" where
  "Long_subtract l n = Long_add l (Long_neg (Long_fromNumber n))"

definition Long_isZero :: "Long \<Rightarrow> bool" where
  "Long_isZero l = (bits l = 0)"

definition Long_toNumber :: "Long \<Rightarrow> number" where
  "Long_toNumber l = Num (round_double (Long_value l))"

definition Long_toString :: "Long \<Rightarrow> string" where
  "Long_toString l = int_toString (Long_value l)"

text \<open>
  \<^verbatim>\<open>Long.fromString(str)\<close>, radix 10, signed: the text is read in pieces of eight
  characters, each through \<^verbatim>\<open>parseInt\<close>; an empty text and a hyphen inside the text throw.
\<close>

fun Long_fromString_loop :: "nat \<Rightarrow> Long \<Rightarrow> string \<Rightarrow> Long" where
  "Long_fromString_loop 0 result str = result"
| "Long_fromString_loop (Suc k) result str =
     (if str = [] then result
      else let piece = take 8 str;
               power = Long_fromNumber (Num (10 ^ length piece))
           in Long_fromString_loop k
                (Long_add (Long_mul result power) (Long_fromNumber (parseInt10 piece)))
                (drop 8 str))"

fun Long_fromString :: "string \<Rightarrow> error + Long" where
  "Long_fromString [] = Inl (Error ''empty string'')"
| "Long_fromString (c # cs) =
     (if c # cs \<in> {''NaN'', ''Infinity'', ''+Infinity'', ''-Infinity''} then Inr Long_ZERO
      else if c = CHR ''-'' then map_sum id Long_neg (Long_fromString cs)
      else if CHR ''-'' \<in> set cs then Inl (Error ''interior hyphen'')
      else Inr (Long_fromString_loop (length (c # cs)) Long_ZERO (c # cs)))"

text \<open>
  The operator \<^verbatim>\<open>>\<close> applied to two \<^verbatim>\<open>Long\<close> objects. JavaScript turns each operand
  into a primitive first; \<^verbatim>\<open>Long\<close> defines \<^verbatim>\<open>toString\<close> and no \<^verbatim>\<open>valueOf\<close>, so each
  operand becomes its decimal text, and two strings are compared as strings.
\<close>

definition Long_greater_operator :: "Long \<Rightarrow> Long \<Rightarrow> bool" where
  "Long_greater_operator a b = string_greater (Long_toString a) (Long_toString b)"

section \<open>Heights\<close>

record Height =
  revisionNumber :: Long
  revisionHeight :: Long

text \<open>\<^verbatim>\<open>subtractBlock(height, count = 1)\<close>; an omitted count is \<open>None\<close>.\<close>

definition subtractBlock :: "Height \<Rightarrow> number option \<Rightarrow> Height" where
  "subtractBlock height count =
     \<lparr>revisionNumber = revisionNumber height,
      revisionHeight = Long_subtract (revisionHeight height)
                         (case count of None \<Rightarrow> Num 1 | Some n \<Rightarrow> n)\<rparr>"


section \<open>Packets\<close>

text \<open>
  Modelled from the spec: \<^verbatim>\<open>Packet.fromPartial\<close> and \<^verbatim>\<open>Height.fromPartial\<close> belong to
  the generated codec, which is not among the sources. Following the data model of the
  spec, a packet keeps every field it is given, and a field given as \<^verbatim>\<open>undefined\<close> is
  absent (\<open>None\<close>).
\<close>

record Packet =
  sequence :: "Long option"
  sourcePort :: "string option"
  sourceChannel :: "string option"
  destinationPort :: "string option"
  destinationChannel :: "string option"
  data :: "8 word list option"
  timeoutHeight :: "Height option"
  timeoutTimestamp :: "Long option"

text \<open>
  Modelled from the spec: \<^verbatim>\<open>PacketWithMetadata\<close> is declared in the endpoint module, not
  among the sources: a packet plus relay bookkeeping, which these functions never read.
\<close>

record 'm PacketWithMetadata =
  packet :: Packet
  metadata :: 'm

section \<open>Packet classifier\<close>

definition heightGreater :: "Height option \<Rightarrow> Height \<Rightarrow> bool" where
  "heightGreater a b =
     (case a of None \<Rightarrow> True
      | Some a \<Rightarrow>
          let valid = Long_greater_operator (revisionNumber a) (revisionNumber b)
          in if num_strict_equal (Long_toNumber (revisionNumber a)) (Long_toNumber (revisionNumber b))
             then Long_greater_operator (revisionHeight a) (revisionHeight b)
             else valid)"

definition timeGreater :: "Long option \<Rightarrow> number \<Rightarrow> bool" where
  "timeGreater a b =
     (case a of None \<Rightarrow> True
      | Some a \<Rightarrow>
          if Long_isZero a then True
          else num_greater (Long_toNumber a) (num_mul b (Num 1000000000)))"

record 'm SplitResult =
  toSubmit :: "'m PacketWithMetadata list"
  toTimeout :: "'m PacketWithMetadata list"

definition validPacket :: "Height \<Rightarrow> number \<Rightarrow> 'm PacketWithMetadata \<Rightarrow> bool" where
  "validPacket currentHeight currentTime p =
     (heightGreater (timeoutHeight (packet p)) currentHeight \<and>
      timeGreater (timeoutTimestamp (packet p)) currentTime)"

definition splitPendingPackets ::
  "Height \<Rightarrow> number \<Rightarrow> 'm PacketWithMetadata list \<Rightarrow> 'm SplitResult" where
  "splitPendingPackets currentHeight currentTime packets =
     foldl (\<lambda>acc p.
              if validPacket currentHeight currentTime p
              then acc\<lparr>toSubmit := toSubmit acc @ [p]\<rparr>
              else acc\<lparr>toTimeout := toTimeout acc @ [p]\<rparr>)
           \<lparr>toSubmit = [], toTimeout = []\<rparr> packets"

text \<open>
  The ordering of heights in the words of the spec: revision numbers first, as numbers;
  with equal revision numbers the revision heights, as numbers.
\<close>

definition height_after_spec :: "Height \<Rightarrow> Height \<Rightarrow> bool" where
  "height_after_spec a b =
     (if Long_value (revisionNumber a) = Long_value (revisionNumber b)
      then Long_value (revisionHeight b) < Long_value (revisionHeight a)
      else Long_value (revisionNumber b) < Long_value (revisionNumber a))"

section \<open>Fee scaler\<close>

record Coin =
  amount :: string
  denom :: string

record StdFee =
  gas :: string
  amount :: "Coin list"

definition multiplyCoin :: "Coin \<Rightarrow> number \<Rightarrow> Coin" where
  "multiplyCoin coin mult =
     (let multAmount = num_mul (parseInt10 (Coin.amount coin)) mult
      in \<lparr>Coin.amount = Number_toString multAmount, denom = denom coin\<rparr>)"

text \<open>
  \<^verbatim>\<open>amount.map(multiplyCoin, mult)\<close>: \<^verbatim>\<open>Array.prototype.map\<close> calls its callback with
  (element, index, array), and its own second argument is the \<^verbatim>\<open>this\<close> of the callback.
  So \<^verbatim>\<open>multiplyCoin\<close> receives the index of the coin as its factor, and \<^verbatim>\<open>mult\<close> goes to
  a \<^verbatim>\<open>this\<close> that \<^verbatim>\<open>multiplyCoin\<close> never reads.
\<close>

definition multiplyFees :: "StdFee \<Rightarrow> number \<Rightarrow> StdFee" where
  "multiplyFees fee mult =
     (let multGas = num_mul (parseInt10 (gas fee)) mult;
          multAmount = map (\<lambda>(index, coin). multiplyCoin coin (Num (int index)))
                           (enumerate 0 (StdFee.amount fee))
      in \<lparr>gas = Number_toString multGas, StdFee.amount = multAmount\<rparr>)"

text \<open>The fee scaler in the words of the spec: every amount and the gas times the factor.\<close>

definition multiplyFee_spec :: "StdFee \<Rightarrow> int \<Rightarrow> StdFee" where
  "multiplyFee_spec fee factor =
     \<lparr>gas = int_toString (decimal (gas fee) * factor),
      StdFee.amount = map (\<lambda>coin. \<lparr>Coin.amount = int_toString (decimal (Coin.amount coin) * factor),
                                     denom = denom coin\<rparr>)
                          (StdFee.amount fee)\<rparr>"

section \<open>Revision numbers and height subtraction\<close>

text \<open>
  \<^verbatim>\<open>chainId.match(regexRevNum)\<close> with \<^verbatim>\<open>regexRevNum = /-([1-9][0-9]*)$/\<close>: the start
  positions are tried from the left; a match at a position needs a hyphen there, a digit
  from 1 to 9 next, and digits only up to the end of the text. The result is the
  captured group \<^verbatim>\<open>match[1]\<close>.
\<close>

fun regexRevNum_match :: "string \<Rightarrow> string option" where
  "regexRevNum_match [] = None"
| "regexRevNum_match (c # cs) =
     (if c = CHR ''-'' \<and>
         (case cs of [] \<Rightarrow> False
          | d # ds \<Rightarrow> isDigit d \<and> d \<noteq> CHR ''0'' \<and> list_all isDigit ds)
      then Some cs
      else regexRevNum_match cs)"

definition parseRevisionNumber :: "string \<Rightarrow> error + Long" where
  "parseRevisionNumber chainId =
     (case regexRevNum_match chainId of
        Some captured \<Rightarrow> Long_fromString captured
      | None \<Rightarrow> Inr (Long_new (Num 0)))"

text \<open>
  The revision number in the words of the spec: the number in a trailing
  \<^verbatim>\<open>-<digits>\<close> suffix, and 0 when there is no such suffix.
\<close>

definition trailing_digits :: "string \<Rightarrow> string option" where
  "trailing_digits s =
     (let suffix = rev (takeWhile (\<lambda>c. c \<noteq> CHR ''-'') (rev s))
      in if CHR ''-'' \<in> set s \<and> suffix \<noteq> [] \<and> list_all isDigit suffix
         then Some suffix else None)"

definition parseRevisionNumber_spec :: "string \<Rightarrow> int" where
  "parseRevisionNumber_spec s = (case trailing_digits s of Some ds \<Rightarrow> decimal ds | None \<Rightarrow> 0)"

text \<open>
  Height subtraction in the words of the spec: the same revision and the revision height
  less \<open>n\<close>; \<open>None\<close> stands for the failure with an arithmetic error when the result would
  be below zero.
\<close>

definition subtractHeight_spec :: "Height \<Rightarrow> int \<Rightarrow> Height option" where
  "subtractHeight_spec h n =
     (if Long_value (revisionHeight h) - n < 0 then None
      else Some \<lparr>revisionNumber = revisionNumber h,
                 revisionHeight = (revisionHeight h)\<lparr>bits := of_int (Long_value (revisionHeight h) - n)\<rparr>\<rparr>)"

section \<open>Event parser\<close>

record ParsedAttribute =
  key :: string
  val :: string

record ParsedEvent =
  type :: string
  attributes :: "ParsedAttribute list"


text \<open>\<^verbatim>\<open>may(transform, value)\<close>: the transform runs on a defined value only.\<close>

definition may :: "('t \<Rightarrow> error + 'u) \<Rightarrow> 't option \<Rightarrow> error + 'u option" where
  "may transform v = (case v of None \<Rightarrow> Inr None | Some x \<Rightarrow> map_sum id Some (transform x))"

text \<open>
  The attributes folded into one object: a later attribute overwrites an earlier one of
  the same key.
\<close>

definition attributesObj :: "ParsedAttribute list \<Rightarrow> (string \<rightharpoonup> string)" where
  "attributesObj attrs = foldl (\<lambda>acc a. acc(key a \<mapsto> val a)) Map.empty attrs"

text \<open>An array element by position, \<open>None\<close> for \<^verbatim>\<open>undefined\<close> beyond the end.\<close>

definition element :: "'a list \<Rightarrow> nat \<Rightarrow> 'a option" where
  "element xs i = (if i < length xs then Some (xs ! i) else None)"

text \<open>
  The first two pieces of \<^verbatim>\<open>packet_timeout_height?.split('-') ?? []\<close>, as the
  destructuring binds them.
\<close>

definition timeoutPieces :: "(string \<rightharpoonup> string) \<Rightarrow> string option \<times> string option" where
  "timeoutPieces obj =
     (let pieces = (case obj ''packet_timeout_height'' of None \<Rightarrow> [] | Some s \<Rightarrow> split CHR ''-'' s)
      in (element pieces 0, element pieces 1))"

text \<open>
  The \<^verbatim>\<open>timeoutHeight\<close> field: a height when both pieces are truthy, that is defined and
  not empty, else \<^verbatim>\<open>undefined\<close>.
\<close>

definition timeoutHeightField :: "string option \<times> string option \<Rightarrow> error + Height option" where
  "timeoutHeightField pieces =
     (case pieces of
        (Some timeoutRevisionNumber, Some timeoutRevisionHeight) \<Rightarrow>
          if timeoutRevisionNumber \<noteq> [] \<and> timeoutRevisionHeight \<noteq> []
          then bind_result (Long_fromString timeoutRevisionNumber) (\<lambda>rn.
               bind_result (Long_fromString timeoutRevisionHeight) (\<lambda>rh.
               Inr (Some \<lparr>revisionNumber = rn, revisionHeight = rh\<rparr>)))
          else Inr None
      | _ \<Rightarrow> Inr None)"

definition parsePacket :: "ParsedEvent \<Rightarrow> error + Packet" where
  "parsePacket ev =
     (if type ev \<noteq> ''send_packet''
      then Inl (Error (''Cannot parse event of type '' @ type ev))
      else
        let obj = attributesObj (attributes ev)
        in bind_result (may Long_fromString (obj ''packet_sequence'')) (\<lambda>sq.
           bind_result (timeoutHeightField (timeoutPieces obj)) (\<lambda>th.
           bind_result (may Long_fromString (obj ''packet_timeout_timestamp'')) (\<lambda>ts.
           Inr \<lparr>sequence = sq,
                sourcePort = obj ''packet_src_port'',
                sourceChannel = obj ''packet_src_channel'',
                destinationPort = obj ''packet_dst_port'',
                destinationChannel = obj ''packet_dst_channel'',
                data = (case obj ''packet_data'' of
                          None \<Rightarrow> None
                        | Some d \<Rightarrow> if d \<noteq> [] then Some (toUtf8 d) else None),
                timeoutHeight = th,
                timeoutTimestamp = ts\<rparr>))))"


definition parsePacketsFromLogs :: "ParsedEvent list list \<Rightarrow> error + Packet list" where
  "parsePacketsFromLogs logs =
     foldr (\<lambda>ev rest. bind_result (parsePacket ev) (\<lambda>p. bind_result rest (\<lambda>ps. Inr (p # ps))))
           (concat (map (filter (\<lambda>ev. type ev = ''send_packet'')) logs)) (Inr [])"

section \<open>Light-client state builder\<close>

text \<open>
  Modelled from the spec: the enumerations and the message types of the proof and client
  codecs are not among the sources. The enumerations hold the members the builder names and
  the members the spec lists beside them; a message holds the fields the builder sets.
\<close>

datatype HashOp = NO_HASH | SHA256

datatype LengthOp = NO_PREFIX | VAR_PROTO

record LeafOp =
  prefixBytes :: "8 word list"
  hash :: HashOp
  prehashValue :: HashOp
  prehashKey :: HashOp
  lengthOp :: LengthOp

record InnerSpec =
  childOrder :: "int list"
  minPrefixLength :: int
  maxPrefixLength :: int
  childSize :: int
  hash :: HashOp

record ProofSpec =
  leafSpec :: LeafOp
  innerSpec :: InnerSpec

record Fraction =
  numerator :: Long
  denominator :: Long

record Duration =
  seconds :: Long

record ClientState =
  chainId :: string
  trustLevel :: Fraction
  unbondingPeriod :: Duration
  trustingPeriod :: Duration
  maxClockDrift :: Duration
  latestHeight :: Height
  proofSpecs :: "ProofSpec list"
  upgradePath :: "string list"
  allowUpdateAfterExpiry :: bool
  allowUpdateAfterMisbehaviour :: bool

definition iavlSpec :: ProofSpec where
  "iavlSpec =
     \<lparr>leafSpec = \<lparr>prefixBytes = [0], LeafOp.hash = SHA256, prehashValue = SHA256,
                  prehashKey = NO_HASH, lengthOp = VAR_PROTO\<rparr>,
      innerSpec = \<lparr>childOrder = [0, 1], minPrefixLength = 4, maxPrefixLength = 12,
                   childSize = 33, InnerSpec.hash = SHA256\<rparr>\<rparr>"

definition tendermintSpec :: ProofSpec where
  "tendermintSpec =
     \<lparr>leafSpec = \<lparr>prefixBytes = [0], LeafOp.hash = SHA256, prehashValue = SHA256,
                  prehashKey = NO_HASH, lengthOp = VAR_PROTO\<rparr>,
      innerSpec = \<lparr>childOrder = [0, 1], minPrefixLength = 1, maxPrefixLength = 1,
                   childSize = 32, InnerSpec.hash = SHA256\<rparr>\<rparr>"

definition buildClientState :: "string \<Rightarrow> number \<Rightarrow> number \<Rightarrow> Height \<Rightarrow> ClientState" where
  "buildClientState chain unbondingPeriodSec trustPeriodSec height =
     \<lparr>chainId = chain,
      trustLevel = \<lparr>numerator = Long_fromInt 1, denominator = Long_fromInt 3\<rparr>,
      unbondingPeriod = \<lparr>seconds = Long_new unbondingPeriodSec\<rparr>,
      trustingPeriod = \<lparr>seconds = Long_new trustPeriodSec\<rparr>,
      maxClockDrift = \<lparr>seconds = Long_new (Num 20)\<rparr>,
      latestHeight = height,
      proofSpecs = [iavlSpec, tendermintSpec],
      upgradePath = [''upgrade'', ''upgradedIBCState''],
      allowUpdateAfterExpiry = False,
      allowUpdateAfterMisbehaviour = False\<rparr>"

section \<open>The packet classifier is a stable partition\<close>

lemma foldl_split_acc:
  "foldl (\<lambda>acc p. if P p then acc\<lparr>toSubmit := toSubmit acc @ [p]\<rparr>
                     else acc\<lparr>toTimeout := toTimeout acc @ [p]\<rparr>) acc ps =
   \<lparr>toSubmit = toSubmit acc @ filter P ps,
    toTimeout = toTimeout acc @ filter (\<lambda>p. \<not> P p) ps\<rparr>"
  by (induction ps arbitrary: acc) simp_all

lemma splitPendingPackets_filter:
  "splitPendingPackets h t ps =
     \<lparr>toSubmit = filter (validPacket h t) ps,
      toTimeout = filter (\<lambda>p. \<not> validPacket h t p) ps\<rparr>"
  unfolding splitPendingPackets_def by (simp add: foldl_split_acc)

lemma count_list_filter_split:
  "count_list (filter P xs) y + count_list (filter (\<lambda>x. \<not> P x) xs) y = count_list xs y"
  by (induction xs) auto

text \<open>
  Claim C3. For every batch, \<open>splitPendingPackets\<close> returns (the model is a total function
  with no error branch, as the source has no throw) the packets that pass the validity
  test in \<open>toSubmit\<close> and the others in \<open>toTimeout\<close>, each packet unchanged and each list
  in input order: the two lists are the two filters of the input, they share no packet,
  together they hold exactly the packets of the input, each packet as often as the input
  does, and each is a subsequence of the input.
\<close>

theorem splitPendingPackets_stable_partition:
  "toSubmit (splitPendingPackets h t ps) = filter (validPacket h t) ps \<and>
   toTimeout (splitPendingPackets h t ps) = filter (\<lambda>p. \<not> validPacket h t p) ps \<and>
   set (toSubmit (splitPendingPackets h t ps)) \<inter> set (toTimeout (splitPendingPackets h t ps)) = {} \<and>
   set (toSubmit (splitPendingPackets h t ps)) \<union> set (toTimeout (splitPendingPackets h t ps)) = set ps \<and>
   (\<forall>p. count_list (toSubmit (splitPendingPackets h t ps) @ toTimeout (splitPendingPackets h t ps)) p
        = count_list ps p) \<and>
   subseq (toSubmit (splitPendingPackets h t ps)) ps \<and>
   subseq (toTimeout (splitPendingPackets h t ps)) ps"
  by (auto simp add: splitPendingPackets_filter count_list_filter_split)

section \<open>The client state has fixed trust parameters\<close>

text \<open>
  Claim C6. Whatever the chain identifier, the two periods and the height,
  \<open>buildClientState\<close> returns exactly the two proof specs \<open>[iavlSpec, tendermintSpec]\<close> in
  this order (IAVL: child order \<open>[0, 1]\<close>, prefix lengths from 4 to 12, child size 33;
  Tendermint: prefix lengths from 1 to 1, child size 32), the trust level 1/3, a maximal
  clock drift of 20 seconds, the given height as latest height, the upgrade path
  \<open>[upgrade, upgradedIBCState]\<close> and both allow-update flags false.
\<close>

theorem buildClientState_fixed_parameters:
  "proofSpecs (buildClientState c u t h) = [iavlSpec, tendermintSpec] \<and>
   length (proofSpecs (buildClientState c u t h)) = 2 \<and>
   childOrder (innerSpec iavlSpec) = [0, 1] \<and>
   minPrefixLength (innerSpec iavlSpec) = 4 \<and>
   maxPrefixLength (innerSpec iavlSpec) = 12 \<and>
   childSize (innerSpec iavlSpec) = 33 \<and>
   minPrefixLength (innerSpec tendermintSpec) = 1 \<and>
   maxPrefixLength (innerSpec tendermintSpec) = 1 \<and>
   childSize (innerSpec tendermintSpec) = 32 \<and>
   Long_value (numerator (trustLevel (buildClientState c u t h))) = 1 \<and>
   Long_value (denominator (trustLevel (buildClientState c u t h))) = 3 \<and>
   Long_value (seconds (maxClockDrift (buildClientState c u t h))) = 20 \<and>
   latestHeight (buildClientState c u t h) = h \<and>
   upgradePath (buildClientState c u t h) = [''upgrade'', ''upgradedIBCState''] \<and>
   allowUpdateAfterExpiry (buildClientState c u t h) = False \<and>
   allowUpdateAfterMisbehaviour (buildClientState c u t h) = False"
  by (simp add: buildClientState_def iavlSpec_def tendermintSpec_def Long_value_def
        Long_fromInt_def Long_new_def)

section \<open>The event parser\<close>

text \<open>
  Claim C7. An event whose type is not \<open>send_packet\<close> makes \<open>parsePacket\<close> fail: it throws
  an error that names the type and returns no packet.
\<close>

theorem parsePacket_rejects_other_types:
  "type ev \<noteq> ''send_packet'' \<Longrightarrow>
   parsePacket ev = Inl (Error (''Cannot parse event of type '' @ type ev))"
  by (simp add: parsePacket_def)

theorem parsePacket_rejects_other_types_witness:
  "parsePacket \<lparr>type = ''other'', attributes = []\<rparr> = Inl (Error ''Cannot parse event of type other'')"
  using parsePacket_rejects_other_types [of "\<lparr>type = ''other'', attributes = []\<rparr>"] by simp

lemma bind_result_Inr:
  "bind_result r f = Inr y \<longleftrightarrow> (\<exists>x. r = Inr x \<and> f x = Inr y)"
  by (cases r) (simp_all add: bind_result_def)

lemma timeoutHeightField_present:
  "timeoutHeightField pieces = Inr th \<Longrightarrow>
   (th \<noteq> None) = (\<exists>a b. pieces = (Some a, Some b) \<and> a \<noteq> [] \<and> b \<noteq> [])"
  by (auto simp add: timeoutHeightField_def bind_result_Inr split: prod.splits option.splits if_splits)

lemma timeoutPieces_both:
  "timeoutPieces obj = (Some a, Some b) \<longleftrightarrow>
   (\<exists>s rest. obj ''packet_timeout_height'' = Some s \<and> split CHR ''-'' s = a # b # rest)"
proof (cases "obj ''packet_timeout_height''")
  case None
  then show ?thesis by (simp add: timeoutPieces_def element_def)
next
  case (Some s)
  show ?thesis
  proof (cases "split CHR ''-'' s")
    case Nil
    with Some show ?thesis by (simp add: timeoutPieces_def element_def)
  next
    case (Cons x xs)
    with Some show ?thesis
      by (cases xs) (auto simp add: timeoutPieces_def element_def)
  qed
qed

lemma parsePacket_Inr_timeoutHeight:
  "parsePacket ev = Inr p \<Longrightarrow>
   timeoutHeightField (timeoutPieces (attributesObj (attributes ev))) = Inr (timeoutHeight p)"
  by (auto simp add: parsePacket_def bind_result_Inr Let_def split: if_splits)

text \<open>
  Claim C8. When \<open>parsePacket\<close> returns a packet for a \<open>send_packet\<close> event, the packet has
  a timeout height exactly when the attribute \<open>packet_timeout_height\<close> is there and its
  text, split at the hyphens, has a first and a second piece that are both non-empty. So a
  missing attribute, a missing piece or an empty piece leaves the timeout height absent.
\<close>

theorem parsePacket_timeoutHeight_present_iff:
  "parsePacket ev = Inr p \<Longrightarrow>
   (timeoutHeight p \<noteq> None) =
   (\<exists>s a b rest. attributesObj (attributes ev) ''packet_timeout_height'' = Some s \<and>
                  split CHR ''-'' s = a # b # rest \<and> a \<noteq> [] \<and> b \<noteq> [])"
  using timeoutHeightField_present [OF parsePacket_Inr_timeoutHeight, of ev p]
  by (simp add: timeoutPieces_both) blast

theorem parsePacket_timeoutHeight_present_iff_witness:
  "parsePacket
     \<lparr>type = ''send_packet'',
      attributes = [\<lparr>key = ''packet_sequence'', val = ''7''\<rparr>,
                    \<lparr>key = ''packet_timeout_height'', val = ''2-150''\<rparr>,
                    \<lparr>key = ''packet_timeout_timestamp'', val = ''0''\<rparr>]\<rparr>
   = Inr \<lparr>sequence = Some \<lparr>bits = 7, unsigned = False\<rparr>, sourcePort = None,
          sourceChannel = None, destinationPort = None, destinationChannel = None,
          data = None,
          timeoutHeight = Some \<lparr>revisionNumber = \<lparr>bits = 2, unsigned = False\<rparr>,
                                revisionHeight = \<lparr>bits = 150, unsigned = False\<rparr>\<rparr>,
          timeoutTimestamp = Some \<lparr>bits = 0, unsigned = False\<rparr>\<rparr> \<and>
   (\<exists>s a b rest.
      attributesObj [\<lparr>key = ''packet_sequence'', val = ''7''\<rparr>,
                     \<lparr>key = ''packet_timeout_height'', val = ''2-150''\<rparr>,
                     \<lparr>key = ''packet_timeout_timestamp'', val = ''0''\<rparr>]
        ''packet_timeout_height'' = Some s \<and>
      split CHR ''-'' s = a # b # rest \<and> a \<noteq> [] \<and> b \<noteq> [])"
proof -
  have e: "parsePacket
     \<lparr>type = ''send_packet'',
      attributes = [\<lparr>key = ''packet_sequence'', val = ''7''\<rparr>,
                    \<lparr>key = ''packet_timeout_height'', val = ''2-150''\<rparr>,
                    \<lparr>key = ''packet_timeout_timestamp'', val = ''0''\<rparr>]\<rparr>
   = Inr \<lparr>sequence = Some \<lparr>bits = 7, unsigned = False\<rparr>, sourcePort = None,
          sourceChannel = None, destinationPort = None, destinationChannel = None,
          data = None,
          timeoutHeight = Some \<lparr>revisionNumber = \<lparr>bits = 2, unsigned = False\<rparr>,
                                revisionHeight = \<lparr>bits = 150, unsigned = False\<rparr>\<rparr>,
          timeoutTimestamp = Some \<lparr>bits = 0, unsigned = False\<rparr>\<rparr>"
    by code_simp
  from parsePacket_timeoutHeight_present_iff [OF e] e show ?thesis by simp
qed





section \<open>The classifier compares heights as decimal text\<close>

text \<open>
  Claim C2. The claim asks for the numeric order of heights: with equal revision numbers a
  timeout height is valid exactly when its revision height is the larger number. In
  \<open>heightGreater\<close> the two revision heights are \<^verbatim>\<open>Long\<close> objects under \<^verbatim>\<open>>\<close>, so their
  decimal texts are compared: the timeout height 1-50 counts as greater than the current
  height 1-100, and 1-1000 as not greater than 1-999, against the numeric order.
\<close>

theorem heightGreater_compares_decimal_text:
  "heightGreater
     (Some \<lparr>revisionNumber = \<lparr>bits = 1, unsigned = True\<rparr>,
            revisionHeight = \<lparr>bits = 50, unsigned = True\<rparr>\<rparr>)
     \<lparr>revisionNumber = \<lparr>bits = 1, unsigned = True\<rparr>,
      revisionHeight = \<lparr>bits = 100, unsigned = True\<rparr>\<rparr> = True \<and>
   height_after_spec
     \<lparr>revisionNumber = \<lparr>bits = 1, unsigned = True\<rparr>,
      revisionHeight = \<lparr>bits = 50, unsigned = True\<rparr>\<rparr>
     \<lparr>revisionNumber = \<lparr>bits = 1, unsigned = True\<rparr>,
      revisionHeight = \<lparr>bits = 100, unsigned = True\<rparr>\<rparr> = False \<and>
   heightGreater
     (Some \<lparr>revisionNumber = \<lparr>bits = 1, unsigned = True\<rparr>,
            revisionHeight = \<lparr>bits = 1000, unsigned = True\<rparr>\<rparr>)
     \<lparr>revisionNumber = \<lparr>bits = 1, unsigned = True\<rparr>,
      revisionHeight = \<lparr>bits = 999, unsigned = True\<rparr>\<rparr> = False \<and>
   height_after_spec
     \<lparr>revisionNumber = \<lparr>bits = 1, unsigned = True\<rparr>,
      revisionHeight = \<lparr>bits = 1000, unsigned = True\<rparr>\<rparr>
     \<lparr>revisionNumber = \<lparr>bits = 1, unsigned = True\<rparr>,
      revisionHeight = \<lparr>bits = 999, unsigned = True\<rparr>\<rparr> = True"
  by code_simp

text \<open>
  Claim C1. The claim sends a packet to \<open>toTimeout\<close> when its timeout height is not greater
  than the current height. With the current height 1-100 and the current time 1000, the
  packet with timeout height 1-50 and no timeout timestamp has passed its height, and
  \<open>splitPendingPackets\<close> puts it in \<open>toSubmit\<close>.
\<close>

theorem splitPendingPackets_submits_passed_height:
  "splitPendingPackets
     \<lparr>revisionNumber = \<lparr>bits = 1, unsigned = True\<rparr>,
      revisionHeight = \<lparr>bits = 100, unsigned = True\<rparr>\<rparr>
     (Num 1000)
     [\<lparr>packet = \<lparr>sequence = None, sourcePort = None, sourceChannel = None,
                  destinationPort = None, destinationChannel = None, data = None,
                  timeoutHeight = Some \<lparr>revisionNumber = \<lparr>bits = 1, unsigned = True\<rparr>,
                                        revisionHeight = \<lparr>bits = 50, unsigned = True\<rparr>\<rparr>,
                  timeoutTimestamp = None\<rparr>,
       metadata = ()\<rparr>]
   = \<lparr>toSubmit =
        [\<lparr>packet = \<lparr>sequence = None, sourcePort = None, sourceChannel = None,
                  destinationPort = None, destinationChannel = None, data = None,
                  timeoutHeight = Some \<lparr>revisionNumber = \<lparr>bits = 1, unsigned = True\<rparr>,
                                        revisionHeight = \<lparr>bits = 50, unsigned = True\<rparr>\<rparr>,
                  timeoutTimestamp = None\<rparr>,
          metadata = ()\<rparr>],
      toTimeout = []\<rparr>"
  by code_simp

section \<open>The fee scaler multiplies coins by their position\<close>

text \<open>
  Claim C4. The claim multiplies every coin amount by the factor. On the fee of the spec's
  example, gas 100000 and one coin of 50 x, and the factor 2, \<open>multiplyFees\<close> doubles the gas
  and returns the coin amount 0: the coin is multiplied by its index 0 in the list, where
  the claim gives 100.
\<close>

theorem multiplyFees_scales_coins_by_index:
  "multiplyFees \<lparr>gas = ''100000'', StdFee.amount = [\<lparr>Coin.amount = ''50'', denom = ''x''\<rparr>]\<rparr> (Num 2)
     = \<lparr>gas = ''200000'', StdFee.amount = [\<lparr>Coin.amount = ''0'', denom = ''x''\<rparr>]\<rparr> \<and>
   multiplyFee_spec \<lparr>gas = ''100000'', StdFee.amount = [\<lparr>Coin.amount = ''50'', denom = ''x''\<rparr>]\<rparr> 2
     = \<lparr>gas = ''200000'', StdFee.amount = [\<lparr>Coin.amount = ''100'', denom = ''x''\<rparr>]\<rparr>"
  by code_simp

section \<open>Height subtraction wraps around\<close>

lemma Long_fromNumber_in_range:
  assumes "- (2 ^ 63) < n" and "n < 2 ^ 63"
  shows "Long_fromNumber (Num n) = \<lparr>bits = of_int n, unsigned = False\<rparr>"
proof (cases "2 ^ 63 \<le> n + 1")
  case True
  with assms have "n = 2 ^ 63 - 1" by linarith
  then show ?thesis by (simp add: Long_fromNumber_def)
next
  case False
  with assms show ?thesis by (simp add: Long_fromNumber_def)
qed

lemma subtractBlock_bits:
  "- (2 ^ 63) < n \<Longrightarrow> n < 2 ^ 63 \<Longrightarrow>
   revisionHeight (subtractBlock h (Some (Num n))) =
     (revisionHeight h)\<lparr>bits := bits (revisionHeight h) - of_int n\<rparr>"
  by (simp add: subtractBlock_def Long_subtract_def Long_add_def Long_neg_def
        Long_fromNumber_in_range)

lemma uint_sub_of_int: "uint ((w :: 64 word) - of_int n) = (uint w - n) mod 2 ^ 64"
  by (simp add: uint_word_ariths uint_word_of_int mod_diff_right_eq)

lemma sint_sub_of_int:
  assumes "0 \<le> n" and "n \<le> sint (w :: 64 word)"
  shows "sint (w - of_int n) = sint w - n"
proof -
  have lt: "sint w < 2 ^ 63" using sint_lt [of w] by simp
  have "w - of_int n = (of_int (sint w - n) :: 64 word)"
    by simp
  then have "sint (w - of_int n) = signed_take_bit 63 (sint w - n)"
    by (simp only: signed_of_int) simp
  also have "\<dots> = sint w - n"
    using assms lt by (intro signed_take_bit_int_eq_self) simp_all
  finally show ?thesis .
qed

lemma uint_sub_of_int_exact:
  assumes "0 \<le> n" and "n \<le> uint (w :: 64 word)"
  shows "uint (w - of_int n) = uint w - n"
proof -
  have "uint w < 2 ^ 64" using uint_lt2p [of w] by simp
  with assms show ?thesis by (simp add: uint_sub_of_int)
qed

text \<open>
  Claim C5, as stated, fails: taking one block from the height 1-0 raises no error;
  \<open>subtractBlock\<close> returns the height 1-18446744073709551615, where the subtraction of the
  spec fails.
\<close>

theorem subtractBlock_wraps_counterexample:
  "subtractHeight_spec
     \<lparr>revisionNumber = \<lparr>bits = 1, unsigned = True\<rparr>,
      revisionHeight = \<lparr>bits = 0, unsigned = True\<rparr>\<rparr> 1 = None \<and>
   subtractBlock
     \<lparr>revisionNumber = \<lparr>bits = 1, unsigned = True\<rparr>,
      revisionHeight = \<lparr>bits = 0, unsigned = True\<rparr>\<rparr> (Some (Num 1))
   = \<lparr>revisionNumber = \<lparr>bits = 1, unsigned = True\<rparr>,
      revisionHeight = \<lparr>bits = 18446744073709551615, unsigned = True\<rparr>\<rparr>"
  by code_simp

text \<open>
  Claim C5, amended. For every height and every count \<open>n\<close> between \<open>- 2 ^ 63\<close> and
  \<open>2 ^ 63\<close>, \<open>subtractBlock\<close> returns a height with the same revision number, whose
  revision height keeps its signedness and is the old one less \<open>n\<close> in 64-bit wrap-around
  arithmetic: exactly the old value less \<open>n\<close> when \<open>n\<close> is from 0 to the old value, and for
  an unsigned revision height the difference modulo \<open>2 ^ 64\<close> in every case. An omitted
  count is 1. There is no failure.
\<close>

theorem subtractBlock_wraps_around:
  assumes "- (2 ^ 63) < n" and "n < 2 ^ 63"
  shows "revisionNumber (subtractBlock h (Some (Num n))) = revisionNumber h \<and>
         unsigned (revisionHeight (subtractBlock h (Some (Num n)))) = unsigned (revisionHeight h) \<and>
         bits (revisionHeight (subtractBlock h (Some (Num n)))) = bits (revisionHeight h) - of_int n \<and>
         (0 \<le> n \<and> n \<le> Long_value (revisionHeight h) \<longrightarrow>
            Long_value (revisionHeight (subtractBlock h (Some (Num n))))
              = Long_value (revisionHeight h) - n) \<and>
         (unsigned (revisionHeight h) \<longrightarrow>
            Long_value (revisionHeight (subtractBlock h (Some (Num n))))
              = (Long_value (revisionHeight h) - n) mod 2 ^ 64) \<and>
         subtractBlock h None = subtractBlock h (Some (Num 1))"
proof -
  have rn: "revisionNumber (subtractBlock h (Some (Num n))) = revisionNumber h"
    by (simp add: subtractBlock_def)
  have dflt: "subtractBlock h None = subtractBlock h (Some (Num 1))"
    by (simp add: subtractBlock_def)
  note rh = subtractBlock_bits [OF assms, of h]
  have exact: "Long_value (revisionHeight (subtractBlock h (Some (Num n))))
              = Long_value (revisionHeight h) - n"
    if "0 \<le> n" "n \<le> Long_value (revisionHeight h)"
    using that by (auto simp add: rh Long_value_def sint_sub_of_int uint_sub_of_int_exact
        split: if_splits)
  have wrap: "Long_value (revisionHeight (subtractBlock h (Some (Num n))))
              = (Long_value (revisionHeight h) - n) mod 2 ^ 64"
    if "unsigned (revisionHeight h)"
    using that by (simp add: rh Long_value_def uint_sub_of_int)
  show ?thesis
    using rn dflt exact wrap by (simp add: rh)
qed

theorem subtractBlock_wraps_around_witness:
  "- (2 ^ 63) < (1 :: int) \<and> (1 :: int) < 2 ^ 63 \<and>
   Long_value (revisionHeight (subtractBlock
     \<lparr>revisionNumber = \<lparr>bits = 1, unsigned = True\<rparr>,
      revisionHeight = \<lparr>bits = 0, unsigned = True\<rparr>\<rparr> (Some (Num 1)))) = 18446744073709551615 \<and>
   Long_value (revisionHeight (subtractBlock
     \<lparr>revisionNumber = \<lparr>bits = 1, unsigned = True\<rparr>,
      revisionHeight = \<lparr>bits = 100, unsigned = True\<rparr>\<rparr> (Some (Num 1)))) = 99"
proof -
  have r: "- (2 ^ 63) < (1 :: int)" "(1 :: int) < 2 ^ 63" by simp_all
  have v0: "Long_value \<lparr>bits = 0, unsigned = True\<rparr> = 0"
    and v100: "Long_value \<lparr>bits = 100, unsigned = True\<rparr> = 100"
    by (simp_all add: Long_value_def)
  have "Long_value (revisionHeight (subtractBlock
     \<lparr>revisionNumber = \<lparr>bits = 1, unsigned = True\<rparr>,
      revisionHeight = \<lparr>bits = 0, unsigned = True\<rparr>\<rparr> (Some (Num 1)))) = (0 - 1) mod 2 ^ 64"
    using subtractBlock_wraps_around [OF r, of "\<lparr>revisionNumber = \<lparr>bits = 1, unsigned = True\<rparr>,
      revisionHeight = \<lparr>bits = 0, unsigned = True\<rparr>\<rparr>"] by (simp only: Height.simps Long.simps v0 simp_thms)
  moreover have "Long_value (revisionHeight (subtractBlock
     \<lparr>revisionNumber = \<lparr>bits = 1, unsigned = True\<rparr>,
      revisionHeight = \<lparr>bits = 100, unsigned = True\<rparr>\<rparr> (Some (Num 1)))) = 100 - 1"
    using subtractBlock_wraps_around [OF r, of "\<lparr>revisionNumber = \<lparr>bits = 1, unsigned = True\<rparr>,
      revisionHeight = \<lparr>bits = 100, unsigned = True\<rparr>\<rparr>"] by (simp only: Height.simps Long.simps v100) simp
  ultimately show ?thesis by simp
qed

section \<open>Revision numbers\<close>

lemma hyphen_not_digit: "\<not> isDigit CHR ''-''"
  by (simp add: isDigit_def)

lemma digits_no_hyphen: "list_all isDigit xs \<Longrightarrow> CHR ''-'' \<notin> set xs"
  by (induction xs) (auto simp add: hyphen_not_digit)

lemma regexRevNum_match_suffix:
  assumes "isDigit d" and "d \<noteq> CHR ''0''" and "list_all isDigit ds"
  shows "regexRevNum_match (pre @ CHR ''-'' # d # ds) = Some (d # ds)"
proof (induction pre)
  case Nil
  from assms show ?case by simp
next
  case (Cons c pre)
  have "\<not> list_all isDigit (pre @ CHR ''-'' # d # ds)"
    using digits_no_hyphen [of "pre @ CHR ''-'' # d # ds"] by auto
  then have "\<not> (case pre @ CHR ''-'' # d # ds of [] \<Rightarrow> False
               | e # es \<Rightarrow> isDigit e \<and> e \<noteq> CHR ''0'' \<and> list_all isDigit es)"
    by (cases "pre @ CHR ''-'' # d # ds") auto
  with Cons show ?case by simp
qed

lemma regexRevNum_match_Some:
  "regexRevNum_match s = Some g \<Longrightarrow>
   \<exists>pre d ds. s = pre @ CHR ''-'' # d # ds \<and> g = d # ds \<and>
               isDigit d \<and> d \<noteq> CHR ''0'' \<and> list_all isDigit ds"
proof (induction s)
  case Nil
  then show ?case by simp
next
  case (Cons c s)
  show ?case
  proof (cases "c = CHR ''-'' \<and> (case s of [] \<Rightarrow> False
               | e # es \<Rightarrow> isDigit e \<and> e \<noteq> CHR ''0'' \<and> list_all isDigit es)")
    case True
    with Cons.prems have g: "g = s" by simp
    from True obtain e es where s: "s = e # es" "isDigit e" "e \<noteq> CHR ''0''" "list_all isDigit es"
      by (cases s) auto
    with True g have "c # s = [] @ CHR ''-'' # e # es \<and> g = e # es" by simp
    with s show ?thesis by blast
  next
    case False
    with Cons.prems have "regexRevNum_match s = Some g" by auto
    from Cons.IH [OF this] obtain pre d ds where
      "s = pre @ CHR ''-'' # d # ds" "g = d # ds" "isDigit d" "d \<noteq> CHR ''0''" "list_all isDigit ds"
      by blast
    then have "c # s = (c # pre) @ CHR ''-'' # d # ds" by simp
    with \<open>g = d # ds\<close> \<open>isDigit d\<close> \<open>d \<noteq> CHR ''0''\<close> \<open>list_all isDigit ds\<close>
    show ?thesis by blast
  qed
qed

lemma decimal_snoc: "decimal (xs @ [c]) = 10 * decimal xs + digitVal c"
  by (simp add: decimal_def)

lemma decimal_append: "decimal (xs @ ys) = decimal xs * 10 ^ length ys + decimal ys"
proof (induction ys rule: rev_induct)
  case Nil
  then show ?case by (simp add: decimal_def)
next
  case (snoc y ys)
  have "decimal (xs @ ys @ [y]) = 10 * decimal (xs @ ys) + digitVal y"
    using decimal_snoc [of "xs @ ys" y] by simp
  with snoc show ?case by (simp add: decimal_snoc algebra_simps)
qed

lemma digitVal_bounds: "isDigit c \<Longrightarrow> 0 \<le> digitVal c \<and> digitVal c \<le> 9"
  by (simp add: isDigit_def digitVal_def)

lemma decimal_bounds: "list_all isDigit xs \<Longrightarrow> 0 \<le> decimal xs \<and> decimal xs < 10 ^ length xs"
proof (induction xs rule: rev_induct)
  case Nil
  then show ?case by (simp add: decimal_def)
next
  case (snoc x xs)
  then have "0 \<le> decimal xs" "decimal xs + 1 \<le> 10 ^ length xs" by simp_all
  moreover from snoc.prems have "0 \<le> digitVal x" "digitVal x \<le> 9"
    using digitVal_bounds [of x] by simp_all
  ultimately show ?case by (simp add: decimal_snoc)
qed

lemma digit_not_space: "isDigit c \<Longrightarrow> \<not> isWhiteSpace c"
  by (auto simp add: isDigit_def isWhiteSpace_def)

lemma digit_not_sign: "isDigit c \<Longrightarrow> c \<noteq> CHR ''-'' \<and> c \<noteq> CHR ''+''"
  by (auto simp add: isDigit_def)

lemma takeWhile_all: "list_all P xs \<Longrightarrow> takeWhile P xs = xs"
  by (induction xs) auto

lemma pow10_le: "n \<le> 8 \<Longrightarrow> (10 :: int) ^ n \<le> 10 ^ 8"
  by (rule power_increasing) simp_all

lemma parseInt10_digits:
  assumes "list_all isDigit s" and "s \<noteq> []" and "length s \<le> 8"
  shows "parseInt10 s = Num (decimal s)"
proof -
  from assms obtain c cs where s: "s = c # cs" by (cases s) auto
  with assms have c: "isDigit c" by simp
  have b: "0 \<le> decimal s" "decimal s < 10 ^ length s"
    using decimal_bounds [OF assms(1)] by simp_all
  with pow10_le [OF assms(3)] have "\<bar>decimal s\<bar> < 2 ^ 53" by simp
  then have r: "round_double (decimal s) = decimal s" by (simp add: round_double_def)
  have t: "takeWhile isDigit (c # cs) = c # cs"
    using takeWhile_all [of isDigit "c # cs"] assms(1) s by simp
  show ?thesis
    using digit_not_space [OF c] digit_not_sign [OF c] r t
    unfolding s parseInt10_def by (simp add: Let_def)
qed

lemma Long_fromString_step:
  assumes "list_all isDigit piece" and "piece \<noteq> []" and "length piece \<le> 8"
  shows "Long_add (Long_mul r (Long_fromNumber (Num (10 ^ length piece))))
                  (Long_fromNumber (parseInt10 piece))
         = r\<lparr>bits := bits r * of_int (10 ^ length piece) + of_int (decimal piece)\<rparr>"
proof -
  have p: "(10 :: int) ^ length piece \<le> 10 ^ 8" by (rule pow10_le [OF assms(3)])
  have "- (2 ^ 63) < (0 :: int)" by simp
  also have "(0 :: int) < 10 ^ length piece" by simp
  finally have "- (2 ^ 63) < (10 :: int) ^ length piece" .
  moreover from p have "(10 :: int) ^ length piece < 2 ^ 63" by simp
  ultimately have 1: "Long_fromNumber (Num (10 ^ length piece))
                  = \<lparr>bits = of_int (10 ^ length piece), unsigned = False\<rparr>"
    by (rule Long_fromNumber_in_range)
  have "0 \<le> decimal piece" "decimal piece < 10 ^ length piece"
    using decimal_bounds [OF assms(1)] by simp_all
  with p have 2: "Long_fromNumber (Num (decimal piece))
                  = \<lparr>bits = of_int (decimal piece), unsigned = False\<rparr>"
    by (intro Long_fromNumber_in_range) simp_all
  show ?thesis
    by (simp add: parseInt10_digits [OF assms] 1 2 Long_add_def Long_mul_def)
qed

lemma Long_fromString_loop_digits:
  "list_all isDigit s \<Longrightarrow> length s \<le> k \<Longrightarrow>
   Long_fromString_loop k r s = r\<lparr>bits := bits r * of_int (10 ^ length s) + of_int (decimal s)\<rparr>"
proof (induction k arbitrary: r s)
  case 0
  then show ?case by (simp add: decimal_def)
next
  case (Suc k)
  show ?case
  proof (cases "s = []")
    case True
    then show ?thesis by (simp add: decimal_def)
  next
    case False
    let ?piece = "take 8 s" and ?rest = "drop 8 s"
    have piece: "list_all isDigit ?piece" "?piece \<noteq> []" "length ?piece \<le> 8"
      using Suc.prems(1) False by (auto simp add: list_all_iff dest: in_set_takeD)
    have rest: "list_all isDigit ?rest" "length ?rest \<le> k"
      using Suc.prems False by (auto simp add: list_all_iff dest: in_set_dropD)
    have split_s: "decimal s = decimal ?piece * 10 ^ length ?rest + decimal ?rest"
      using decimal_append [of ?piece ?rest] by simp
    have len: "length s = length ?piece + length ?rest" by simp
    have "Long_fromString_loop (Suc k) r s =
          Long_fromString_loop k
            (r\<lparr>bits := bits r * of_int (10 ^ length ?piece) + of_int (decimal ?piece)\<rparr>) ?rest"
      using False Long_fromString_step [OF piece, of r] by (simp add: Let_def)
    also have "\<dots> = r\<lparr>bits := (bits r * of_int (10 ^ length ?piece) + of_int (decimal ?piece))
                               * of_int (10 ^ length ?rest) + of_int (decimal ?rest)\<rparr>"
      using Suc.IH [OF rest] by simp
    also have "(bits r * of_int (10 ^ length ?piece) + of_int (decimal ?piece))
                 * of_int (10 ^ length ?rest) + of_int (decimal ?rest)
               = bits r * of_int (10 ^ length s) + of_int (decimal s)"
      by (subst len, subst split_s) (simp add: power_add algebra_simps)
    finally show ?thesis .
  qed
qed

lemma Long_fromString_digits:
  assumes "isDigit d" and "list_all isDigit ds"
  shows "Long_fromString (d # ds) = Inr \<lparr>bits = of_int (decimal (d # ds)), unsigned = False\<rparr>"
proof -
  have 1: "d \<noteq> CHR ''N''" "d \<noteq> CHR ''I''" "d \<noteq> CHR ''+''"
    using assms(1) by (auto simp add: isDigit_def)
  have 2: "d \<noteq> CHR ''-''" using digit_not_sign [OF assms(1)] by simp
  have 3: "CHR ''-'' \<notin> set ds" by (rule digits_no_hyphen [OF assms(2)])
  have "Long_fromString_loop (length (d # ds)) Long_ZERO (d # ds)
        = \<lparr>bits = of_int (decimal (d # ds)), unsigned = False\<rparr>"
    using Long_fromString_loop_digits [of "d # ds" "length (d # ds)" Long_ZERO] assms
    by (simp add: Long_ZERO_def)
  with 1 2 3 show ?thesis by (simp del: Long_fromString_loop.simps)
qed

text \<open>
  Claim C9, as stated, fails: \<open>chain-07\<close> ends in a hyphen and digits that write the number
  7, and \<open>parseRevisionNumber\<close> returns 0.
\<close>

theorem parseRevisionNumber_leading_zero_counterexample:
  "parseRevisionNumber ''chain-07'' = Inr \<lparr>bits = 0, unsigned = False\<rparr> \<and>
   parseRevisionNumber_spec ''chain-07'' = 7"
  by code_simp

text \<open>
  Claim C9, amended. \<open>parseRevisionNumber\<close> never fails. When the chain identifier ends in
  a hyphen followed by digits of which the first is not 0, it returns the number these
  digits write, as the bits of a signed \<^verbatim>\<open>Long\<close> (so this very number when it is below
  \<open>2 ^ 63\<close>). When the identifier has no such ending, it returns 0. In particular
  \<open>testing-4\<close> gives 4, \<open>testing\<close> gives 0 and \<open>chain-07-3\<close> gives 3.
\<close>

theorem parseRevisionNumber_nonzero_suffix:
  "(isDigit d \<and> d \<noteq> CHR ''0'' \<and> list_all isDigit ds \<longrightarrow>
      parseRevisionNumber (pre @ CHR ''-'' # d # ds)
        = Inr \<lparr>bits = of_int (decimal (d # ds)), unsigned = False\<rparr>) \<and>
   (isDigit d \<and> d \<noteq> CHR ''0'' \<and> list_all isDigit ds \<and> decimal (d # ds) < 2 ^ 63 \<longrightarrow>
      (\<exists>r. parseRevisionNumber (pre @ CHR ''-'' # d # ds) = Inr r \<and>
           Long_value r = decimal (d # ds))) \<and>
   ((\<nexists>p e es. s = p @ CHR ''-'' # e # es \<and> isDigit e \<and> e \<noteq> CHR ''0'' \<and> list_all isDigit es) \<longrightarrow>
      parseRevisionNumber s = Inr \<lparr>bits = 0, unsigned = False\<rparr>) \<and>
   parseRevisionNumber ''testing-4'' = Inr \<lparr>bits = 4, unsigned = False\<rparr> \<and>
   parseRevisionNumber ''testing'' = Inr \<lparr>bits = 0, unsigned = False\<rparr> \<and>
   parseRevisionNumber ''chain-07-3'' = Inr \<lparr>bits = 3, unsigned = False\<rparr>"
proof -
  have a: "parseRevisionNumber (pre @ CHR ''-'' # d # ds)
        = Inr \<lparr>bits = of_int (decimal (d # ds)), unsigned = False\<rparr>"
    if "isDigit d" "d \<noteq> CHR ''0''" "list_all isDigit ds"
    using that by (simp add: parseRevisionNumber_def regexRevNum_match_suffix
        Long_fromString_digits del: Long_fromString.simps)
  have b: "Long_value \<lparr>bits = of_int (decimal (d # ds)), unsigned = False\<rparr> = decimal (d # ds)"
    if "isDigit d" "list_all isDigit ds" "decimal (d # ds) < 2 ^ 63"
  proof -
    have "0 \<le> decimal (d # ds)" using decimal_bounds [of "d # ds"] that by simp
    with that(3) have "signed_take_bit 63 (decimal (d # ds)) = decimal (d # ds)"
      by (intro signed_take_bit_int_eq_self) simp_all
    then show ?thesis by (simp add: Long_value_def signed_of_int)
  qed
  have c: "parseRevisionNumber s = Inr \<lparr>bits = 0, unsigned = False\<rparr>"
    if "\<nexists>p e es. s = p @ CHR ''-'' # e # es \<and> isDigit e \<and> e \<noteq> CHR ''0'' \<and> list_all isDigit es"
  proof (cases "regexRevNum_match s")
    case None
    then show ?thesis by (simp add: parseRevisionNumber_def Long_new_def)
  next
    case (Some g)
    from regexRevNum_match_Some [OF this] that show ?thesis by blast
  qed
  have d: "parseRevisionNumber ''testing-4'' = Inr \<lparr>bits = 4, unsigned = False\<rparr>"
    by code_simp
  have e: "parseRevisionNumber ''testing'' = Inr \<lparr>bits = 0, unsigned = False\<rparr>"
    by code_simp
  have f: "parseRevisionNumber ''chain-07-3'' = Inr \<lparr>bits = 3, unsigned = False\<rparr>"
    by code_simp
  show ?thesis using a b c d e f by simp
qed

theorem parseRevisionNumber_nonzero_suffix_witness:
  "isDigit CHR ''4'' \<and> CHR ''4'' \<noteq> CHR ''0'' \<and> list_all isDigit [] \<and> decimal ''4'' < 2 ^ 63 \<and>
   parseRevisionNumber ''cosmoshub-4'' = Inr \<lparr>bits = 4, unsigned = False\<rparr> \<and>
   (\<nexists>p e es. ''testing'' = p @ CHR ''-'' # e # es \<and> isDigit e \<and> e \<noteq> CHR ''0'' \<and> list_all isDigit es) \<and>
   parseRevisionNumber ''testing'' = Inr \<lparr>bits = 0, unsigned = False\<rparr>"
proof -
  have h: "isDigit CHR ''4''" "CHR ''4'' \<noteq> CHR ''0''" "list_all isDigit []" "decimal ''4'' < 2 ^ 63"
    by (simp_all add: isDigit_def decimal_def digitVal_def)
  have n: "\<nexists>p e es. ''testing'' = p @ CHR ''-'' # e # es \<and> isDigit e \<and> e \<noteq> CHR ''0'' \<and> list_all isDigit es"
  proof
    assume "\<exists>p e es. ''testing'' = p @ CHR ''-'' # e # es \<and> isDigit e \<and> e \<noteq> CHR ''0'' \<and> list_all isDigit es"
    then obtain p e es where "''testing'' = p @ CHR ''-'' # e # es" by blast
    then have "CHR ''-'' \<in> set ''testing''" by (metis in_set_conv_decomp)
    then show False by simp
  qed
  have "parseRevisionNumber (''cosmoshub'' @ CHR ''-'' # CHR ''4'' # []) = Inr \<lparr>bits = of_int (decimal ''4''), unsigned = False\<rparr>"
    using parseRevisionNumber_nonzero_suffix [of "CHR ''4''" "[]" "''cosmoshub''" "''testing''"] h by blast
  then have c: "parseRevisionNumber ''cosmoshub-4'' = Inr \<lparr>bits = 4, unsigned = False\<rparr>"
    by (simp add: decimal_def digitVal_def)
  have t: "parseRevisionNumber ''testing'' = Inr \<lparr>bits = 0, unsigned = False\<rparr>"
    using parseRevisionNumber_nonzero_suffix [of "CHR ''4''" "[]" "''cosmoshub''" "''testing''"] n by blast
  from h n c t show ?thesis by blast
qed

end
